theory Spec2Isabelle
  imports Complex_Main
begin

section \<open>SCORM 2004 sequencing engine (src/lib/scorm-sequencing-correct.ts)\<close>

subsection \<open>JavaScript values read by the engine\<close>

text \<open>
  A JavaScript \<open>number\<close> is a double: a finite value (read here as the real number it
  denotes), one of the two infinities, or NaN. The engine only compares numbers; every
  comparison with NaN is false.
\<close>

datatype number = NaN | NegInfinity | Num real | PosInfinity

fun num_gt :: "number \<Rightarrow> number \<Rightarrow> bool" where
  "num_gt NaN _ = False"
| "num_gt _ NaN = False"
| "num_gt (Num a) (Num b) = (a > b)"
| "num_gt PosInfinity PosInfinity = False"
| "num_gt PosInfinity _ = True"
| "num_gt _ PosInfinity = False"
| "num_gt NegInfinity _ = False"
| "num_gt (Num a) NegInfinity = True"

definition num_lt :: "number \<Rightarrow> number \<Rightarrow> bool" where
  "num_lt a b = num_gt b a"

fun num_ge :: "number \<Rightarrow> number \<Rightarrow> bool" where
  "num_ge NaN _ = False"
| "num_ge _ NaN = False"
| "num_ge a b = (\<not> num_gt b a)"

text \<open>Truthiness of a number (\<open>!n\<close> is true for 0 and NaN) and of an optional string.\<close>

fun num_truthy :: "number option \<Rightarrow> bool" where
  "num_truthy None = False"
| "num_truthy (Some NaN) = False"
| "num_truthy (Some (Num r)) = (r \<noteq> 0)"
| "num_truthy (Some _) = True"

fun str_truthy :: "string option \<Rightarrow> bool" where
  "str_truthy None = False"
| "str_truthy (Some s) = (s \<noteq> [])"

text \<open>
  The engine reads the wall clock in \<open>isOutsideAvailableTimeRange\<close> (\<open>new Date()\<close>) and
  parses the manifest's time limits with \<open>new Date(string)\<close>. Both belong to the
  JavaScript runtime, so they are parameters: the clock reading (milliseconds) of the
  request being processed, and the date parser (\<open>None\<close> for an invalid date, whose
  comparisons are all false).
\<close>

record jsenv =
  now :: int
  parseDate :: "string \<Rightarrow> int option"

subsection \<open>Manifest types (types/scorm.ts), the fields the engine reads\<close>

record SCORMRuleCondition =
  condition :: string
  operator :: "string option"
  measureThreshold :: "number option"
  referenceObjective :: "string option"

record SCORMRule =
  conditionCombination :: string
  action :: string
  ruleConditions :: "SCORMRuleCondition list"

record SCORMSequencingRules =
  preConditionRule :: "SCORMRule list option"
  exitConditionRule :: "SCORMRule list option"
  postConditionRule :: "SCORMRule list option"

record SCORMControlMode =
  choice :: "bool option"
  flow :: "bool option"
  forwardOnly :: "bool option"

record SCORMLimitConditions =
  attemptLimit :: "number option"
  activityAbsoluteDurationLimit :: "string option"
  beginTimeLimit :: "string option"
  endTimeLimit :: "string option"

record SCORMRollupRule =
  rollup_action :: string
  rollup_conditionCombination :: string
  conditions :: "SCORMRuleCondition list"

record SCORMRollupRules =
  rollupRule :: "SCORMRollupRule list option"

record SCORMSequencing =
  controlMode :: "SCORMControlMode option"
  sequencingRules :: "SCORMSequencingRules option"
  limitConditions :: "SCORMLimitConditions option"
  rollupRules :: "SCORMRollupRules option"

datatype SCORMItem = SCORMItem
  (item_identifier: string)
  (item_identifierref: "string option")
  (item_isvisible: "bool option")
  (item_item: "SCORMItem list option")
  (item_sequencing: "SCORMSequencing option")

record SCORMOrganization =
  org_identifier :: string
  items :: "SCORMItem list"

record SCORMManifest =
  organizations :: "SCORMOrganization list"

subsection \<open>Activity tree and session state\<close>

text \<open>
  An activity object is addressed by its path from the root (the list of child indices).
  The immutable part of an \<open>Activity\<close> is the tree node below; its \<open>parent\<close>
  back-reference is the path without its last index, and its mutable
  \<open>activityStateInformation\<close> lives in a store indexed by paths. \<open>item = None\<close> is the
  empty object \<open>{}\<close> that \<open>createActivity\<close> installs.
\<close>

type_synonym path = "nat list"

datatype Activity = Activity
  (activity_identifier: string)
  (item: "SCORMItem option")
  (children: "Activity list")
  (isLeaf: bool)
  (isRoot: bool)
  (depth: nat)
  (sequencingDefinition: "SCORMSequencing option")

record ObjectiveState =
  objectiveProgressStatus :: bool
  objectiveSatisfiedStatus :: bool
  objectiveMeasureStatus :: bool
  objectiveNormalizedMeasure :: number

record ActivityStateInformation =
  activityIsActive :: bool
  activityIsSuspended :: bool
  activityProgressStatus :: bool
  activityCompletionStatus :: bool
  activityAbsoluteDuration :: number
  activityExperiencedDuration :: number
  attemptProgressStatus :: bool
  attemptCompletionStatus :: bool
  attemptAbsoluteDuration :: number
  attemptExperiencedDuration :: number
  attemptCompletionAmount :: number
  objectives :: "string \<rightharpoonup> ObjectiveState"
  suspendedActivity :: "path option"

record SequencingSession =
  activityTree :: Activity
  currentActivity :: "path option"
  states :: "path \<Rightarrow> ActivityStateInformation"
  sequencingSession :: "string \<rightharpoonup> string"
  globalObjectives :: "string \<rightharpoonup> ObjectiveState"

record engine =
  manifest :: SCORMManifest
  session :: SequencingSession
  endSession :: bool

datatype error = NoOrganizations

text \<open>
  \<open>flowSubprocess\<close> can recurse without end; the JavaScript runtime then throws a
  RangeError (call stack exhausted), which leaves the engine with the state reached so far.
\<close>

datatype 'a outcome = RangeError | Returns 'a

subsection \<open>Building the tree\<close>

definition initializeActivityState :: ActivityStateInformation where
  "initializeActivityState = \<lparr>
     activityIsActive = False,
     activityIsSuspended = False,
     activityProgressStatus = False,
     activityCompletionStatus = False,
     activityAbsoluteDuration = Num 0,
     activityExperiencedDuration = Num 0,
     attemptProgressStatus = False,
     attemptCompletionStatus = False,
     attemptAbsoluteDuration = Num 0,
     attemptExperiencedDuration = Num 0,
     attemptCompletionAmount = Num 0,
     objectives = Map.empty,
     suspendedActivity = None \<rparr>"

definition createActivity :: "string \<Rightarrow> path option \<Rightarrow> bool \<Rightarrow> nat \<Rightarrow> Activity" where
  "createActivity ident parent leaf d = Activity ident None [] leaf (parent = None) d None"

definition set_item :: "SCORMItem \<Rightarrow> Activity \<Rightarrow> Activity" where
  "set_item it a = Activity (activity_identifier a) (Some it) (children a) (isLeaf a) (isRoot a) (depth a)
     (sequencingDefinition a)"

definition set_sequencingDefinition :: "SCORMSequencing option \<Rightarrow> Activity \<Rightarrow> Activity" where
  "set_sequencingDefinition sd a = Activity (activity_identifier a) (item a) (children a) (isLeaf a) (isRoot a)
     (depth a) sd"

definition set_children :: "Activity list \<Rightarrow> Activity \<Rightarrow> Activity" where
  "set_children cs a = Activity (activity_identifier a) (item a) cs (isLeaf a) (isRoot a) (depth a)
     (sequencingDefinition a)"

text \<open>\<open>!item.item || item.item.length === 0\<close>\<close>

fun no_subitems :: "SCORMItem list option \<Rightarrow> bool" where
  "no_subitems None = True"
| "no_subitems (Some its) = (its = [])"

fun buildActivityChildren :: "SCORMItem list \<Rightarrow> path \<Rightarrow> nat \<Rightarrow> nat \<Rightarrow> Activity list"
  and buildActivityChild :: "SCORMItem \<Rightarrow> path \<Rightarrow> nat \<Rightarrow> Activity"
where
  "buildActivityChildren [] parent i d = []"
| "buildActivityChildren (it # its) parent i d =
     buildActivityChild it (parent @ [i]) d # buildActivityChildren its parent (Suc i) d"
| "buildActivityChild (SCORMItem ident iref vis sub sq) p d =
     (let activity = createActivity ident (Some (butlast p)) (no_subitems sub) d;
          activity = set_item (SCORMItem ident iref vis sub sq) activity;
          activity = set_sequencingDefinition sq activity
      in case sub of
           None \<Rightarrow> activity
         | Some its \<Rightarrow>
             if its \<noteq> [] then set_children (buildActivityChildren its p 0 (d + 1)) activity
             else activity)"

definition buildActivityTree :: "SCORMManifest \<Rightarrow> error + Activity" where
  "buildActivityTree m =
     (case organizations m of
        [] \<Rightarrow> Inl NoOrganizations
      | org # _ \<Rightarrow>
          (let rootActivity = createActivity (org_identifier org) None True 0
           in Inr (set_children (buildActivityChildren (items org) [] 0 1) rootActivity)))"

definition SCORMSequencingEngine :: "SCORMManifest \<Rightarrow> error + engine" where
  "SCORMSequencingEngine m =
     (case buildActivityTree m of
        Inl err \<Rightarrow> Inl err
      | Inr t \<Rightarrow> Inr \<lparr> manifest = m,
                      session = \<lparr> activityTree = t, currentActivity = None,
                                  states = (\<lambda>_. initializeActivityState),
                                  sequencingSession = Map.empty,
                                  globalObjectives = Map.empty \<rparr>,
                      endSession = False \<rparr>)"

subsection \<open>References into the tree\<close>

fun lookup :: "Activity \<Rightarrow> path \<Rightarrow> Activity option" where
  "lookup a [] = Some a"
| "lookup a (i # p) = (if i < length (children a) then lookup (children a ! i) p else None)"

definition parent :: "path \<Rightarrow> path option" where
  "parent p = (if p = [] then None else Some (butlast p))"

definition activityAt :: "engine \<Rightarrow> path \<Rightarrow> Activity option" where
  "activityAt e p = lookup (activityTree (session e)) p"

definition stateOf :: "engine \<Rightarrow> path \<Rightarrow> ActivityStateInformation" where
  "stateOf e p = states (session e) p"

definition updState ::
  "path \<Rightarrow> (ActivityStateInformation \<Rightarrow> ActivityStateInformation) \<Rightarrow> engine \<Rightarrow> engine" where
  "updState p f e =
     e\<lparr>session := (session e)\<lparr>states := (states (session e))(p := f (states (session e) p))\<rparr>\<rparr>"

text \<open>
  A path that addresses no node stands for a reference the engine never holds; the
  functions below answer it like \<open>null\<close>.
\<close>

definition sequencingDefinitionAt :: "engine \<Rightarrow> path \<Rightarrow> SCORMSequencing option" where
  "sequencingDefinitionAt e p =
     (case activityAt e p of None \<Rightarrow> None | Some a \<Rightarrow> sequencingDefinition a)"

definition childPaths :: "path \<Rightarrow> Activity \<Rightarrow> path list" where
  "childPaths p a = map (\<lambda>i. p @ [i]) [0..<length (children a)]"

subsection \<open>Helper methods\<close>

fun findActivityInTree :: "Activity \<Rightarrow> path \<Rightarrow> string \<Rightarrow> path option"
  and findActivityInChildren :: "Activity list \<Rightarrow> path \<Rightarrow> nat \<Rightarrow> string \<Rightarrow> path option"
where
  "findActivityInTree (Activity ident it cs lf rt d sd) p target =
     (if ident = target then Some p else findActivityInChildren cs p 0 target)"
| "findActivityInChildren [] p i target = None"
| "findActivityInChildren (c # cs) p i target =
     (case findActivityInTree c (p @ [i]) target of
        Some found \<Rightarrow> Some found
      | None \<Rightarrow> findActivityInChildren cs p (Suc i) target)"

definition findActivity :: "engine \<Rightarrow> string \<Rightarrow> path option" where
  "findActivity e target = findActivityInTree (activityTree (session e)) [] target"

fun findSuspendedActivity ::
    "(path \<Rightarrow> ActivityStateInformation) \<Rightarrow> Activity \<Rightarrow> path \<Rightarrow> path option"
  and findSuspendedInChildren ::
    "(path \<Rightarrow> ActivityStateInformation) \<Rightarrow> Activity list \<Rightarrow> path \<Rightarrow> nat \<Rightarrow> path option"
where
  "findSuspendedActivity st (Activity ident it cs lf rt d sd) p =
     (if activityIsSuspended (st p) then Some p else findSuspendedInChildren st cs p 0)"
| "findSuspendedInChildren st [] p i = None"
| "findSuspendedInChildren st (c # cs) p i =
     (case findSuspendedActivity st c (p @ [i]) of
        Some found \<Rightarrow> Some found
      | None \<Rightarrow> findSuspendedInChildren st cs p (Suc i))"

subsection \<open>Objectives\<close>

text \<open>\<open>objectiveId || "_primary_"\<close>\<close>

definition objectiveKey :: "string option \<Rightarrow> string" where
  "objectiveKey objectiveId =
     (case objectiveId of None \<Rightarrow> ''_primary_'' | Some s \<Rightarrow> if s = [] then ''_primary_'' else s)"

definition getObjective :: "engine \<Rightarrow> path \<Rightarrow> string option \<Rightarrow> ObjectiveState option" where
  "getObjective e p objectiveId = objectives (stateOf e p) (objectiveKey objectiveId)"

definition getObjectiveSatisfiedStatus :: "engine \<Rightarrow> path \<Rightarrow> string option \<Rightarrow> bool" where
  "getObjectiveSatisfiedStatus e p objectiveId =
     (case getObjective e p objectiveId of None \<Rightarrow> False | Some ob \<Rightarrow> objectiveSatisfiedStatus ob)"

definition getObjectiveProgressStatus :: "engine \<Rightarrow> path \<Rightarrow> string option \<Rightarrow> bool" where
  "getObjectiveProgressStatus e p objectiveId =
     (case getObjective e p objectiveId of None \<Rightarrow> False | Some ob \<Rightarrow> objectiveProgressStatus ob)"

definition getObjectiveMeasure :: "engine \<Rightarrow> path \<Rightarrow> string option \<Rightarrow> number option" where
  "getObjectiveMeasure e p objectiveId =
     (case getObjective e p objectiveId of
        None \<Rightarrow> None
      | Some ob \<Rightarrow> if objectiveMeasureStatus ob then Some (objectiveNormalizedMeasure ob) else None)"

definition newObjective :: ObjectiveState where
  "newObjective = \<lparr> objectiveProgressStatus = False, objectiveSatisfiedStatus = False,
                     objectiveMeasureStatus = False, objectiveNormalizedMeasure = Num 0 \<rparr>"

definition getOrCreateObjective :: "engine \<Rightarrow> path \<Rightarrow> string option \<Rightarrow> ObjectiveState \<times> engine" where
  "getOrCreateObjective e p objectiveId =
     (let ident = objectiveKey objectiveId
      in case objectives (stateOf e p) ident of
           Some ob \<Rightarrow> (ob, e)
         | None \<Rightarrow> (newObjective,
                    updState p (\<lambda>s. s\<lparr>objectives := (objectives s)(ident \<mapsto> newObjective)\<rparr>) e))"

text \<open>The objective returned above is the object stored in the map; writing it updates the entry.\<close>

definition setObjectiveSatisfiedStatus :: "path \<Rightarrow> bool \<Rightarrow> string option \<Rightarrow> engine \<Rightarrow> engine" where
  "setObjectiveSatisfiedStatus p satisfied objectiveId e =
     (case getOrCreateObjective e p objectiveId of
        (ob, e1) \<Rightarrow>
          updState p (\<lambda>s. s\<lparr>objectives := (objectives s)(objectiveKey objectiveId \<mapsto>
              ob\<lparr>objectiveProgressStatus := True, objectiveSatisfiedStatus := satisfied\<rparr>)\<rparr>) e1)"

subsection \<open>Limit checks\<close>

definition limitConditionsOf :: "SCORMSequencing option \<Rightarrow> SCORMLimitConditions option" where
  "limitConditionsOf sq = (case sq of None \<Rightarrow> None | Some s \<Rightarrow> limitConditions s)"

definition getAttemptCount :: "path \<Rightarrow> number" where
  "getAttemptCount p = Num 0"

definition parseTimeLimit :: "string \<Rightarrow> number" where
  "parseTimeLimit timeLimit = Num 0"

definition isAttemptLimitExceeded :: "engine \<Rightarrow> path \<Rightarrow> bool" where
  "isAttemptLimitExceeded e p =
     (let lim = (case limitConditionsOf (sequencingDefinitionAt e p) of
                   None \<Rightarrow> None | Some lc \<Rightarrow> attemptLimit lc)
      in if \<not> num_truthy lim then False
         else case lim of None \<Rightarrow> False | Some l \<Rightarrow> num_ge (getAttemptCount p) l)"

definition isTimeLimitExceeded :: "engine \<Rightarrow> path \<Rightarrow> bool" where
  "isTimeLimitExceeded e p =
     (let timeLimit = (case limitConditionsOf (sequencingDefinitionAt e p) of
                         None \<Rightarrow> None | Some lc \<Rightarrow> activityAbsoluteDurationLimit lc)
      in if \<not> str_truthy timeLimit then False
         else case timeLimit of
                None \<Rightarrow> False
              | Some t \<Rightarrow> num_ge (activityAbsoluteDuration (stateOf e p)) (parseTimeLimit t))"

definition isOutsideAvailableTimeRange :: "jsenv \<Rightarrow> engine \<Rightarrow> path \<Rightarrow> bool" where
  "isOutsideAvailableTimeRange env e p =
     (let lc = limitConditionsOf (sequencingDefinitionAt e p);
          beginTime = (case lc of None \<Rightarrow> None | Some l \<Rightarrow> beginTimeLimit l);
          endTime = (case lc of None \<Rightarrow> None | Some l \<Rightarrow> endTimeLimit l)
      in if \<not> str_truthy beginTime \<and> \<not> str_truthy endTime then False
         else if str_truthy beginTime \<and>
                 (case beginTime of None \<Rightarrow> False
                  | Some b \<Rightarrow> (case parseDate env b of None \<Rightarrow> False | Some t \<Rightarrow> now env < t))
              then True
         else if str_truthy endTime \<and>
                 (case endTime of None \<Rightarrow> False
                  | Some b \<Rightarrow> (case parseDate env b of None \<Rightarrow> False | Some t \<Rightarrow> now env > t))
              then True
         else False)"

subsection \<open>Sequencing rule evaluation\<close>

definition evaluateRuleCondition :: "jsenv \<Rightarrow> engine \<Rightarrow> SCORMRuleCondition \<Rightarrow> path \<Rightarrow> bool" where
  "evaluateRuleCondition env e cond p =
     (let state = stateOf e p;
          c = condition cond;
          result =
            (if c = ''satisfied'' then getObjectiveSatisfiedStatus e p (referenceObjective cond)
             else if c = ''objectiveStatusKnown'' then
               getObjectiveProgressStatus e p (referenceObjective cond)
             else if c = ''objectiveSatisfied'' then
               getObjectiveSatisfiedStatus e p (referenceObjective cond)
             else if c = ''objectiveMeasureKnown'' then
               getObjectiveMeasure e p (referenceObjective cond) \<noteq> None
             else if c = ''objectiveMeasureGreaterThan'' then
               (case (getObjectiveMeasure e p (referenceObjective cond), measureThreshold cond) of
                  (Some m, Some t) \<Rightarrow> num_gt m t | _ \<Rightarrow> False)
             else if c = ''objectiveMeasureLessThan'' then
               (case (getObjectiveMeasure e p (referenceObjective cond), measureThreshold cond) of
                  (Some m, Some t) \<Rightarrow> num_lt m t | _ \<Rightarrow> False)
             else if c = ''completed'' then
               activityProgressStatus state \<and> activityCompletionStatus state
             else if c = ''activityProgressKnown'' then activityProgressStatus state
             else if c = ''attempted'' then attemptProgressStatus state
             else if c = ''attemptLimitExceeded'' then isAttemptLimitExceeded e p
             else if c = ''timeLimitExceeded'' then isTimeLimitExceeded e p
             else if c = ''outsideAvailableTimeRange'' then isOutsideAvailableTimeRange env e p
             else False)
      in if operator cond = Some ''not'' then \<not> result else result)"

definition evaluateSequencingRule :: "jsenv \<Rightarrow> engine \<Rightarrow> SCORMRule \<Rightarrow> path \<Rightarrow> bool" where
  "evaluateSequencingRule env e rule p =
     (let conditionResults = map (\<lambda>c. evaluateRuleCondition env e c p) (ruleConditions rule)
      in if conditionCombination rule = ''all'' then list_all (\<lambda>r. r) conditionResults
         else list_ex (\<lambda>r. r) conditionResults)"

definition checkPreConditions :: "jsenv \<Rightarrow> engine \<Rightarrow> path \<Rightarrow> bool" where
  "checkPreConditions env e p =
     (case sequencingDefinitionAt e p of
        None \<Rightarrow> True
      | Some sq \<Rightarrow>
          (case sequencingRules sq of
             None \<Rightarrow> True
           | Some rs \<Rightarrow>
               (case preConditionRule rs of
                  None \<Rightarrow> True
                | Some rules \<Rightarrow> list_all (\<lambda>rule. evaluateSequencingRule env e rule p) rules)))"

definition isActivityDeliverable :: "jsenv \<Rightarrow> engine \<Rightarrow> path \<Rightarrow> bool" where
  "isActivityDeliverable env e p =
     (case activityAt e p of
        None \<Rightarrow> False
      | Some a \<Rightarrow>
          if \<not> isLeaf a then False
          else if \<not> str_truthy (case item a of None \<Rightarrow> None | Some it \<Rightarrow> item_identifierref it)
            then False
          else if (case item a of None \<Rightarrow> None | Some it \<Rightarrow> item_isvisible it) = Some False
            then False
          else checkPreConditions env e p)"

subsection \<open>Control modes and siblings\<close>

definition controlModeOf :: "Activity \<Rightarrow> SCORMControlMode option" where
  "controlModeOf a = (case sequencingDefinition a of None \<Rightarrow> None | Some sq \<Rightarrow> controlMode sq)"

definition isChoiceValid :: "Activity \<Rightarrow> bool" where
  "isChoiceValid a = (case controlModeOf a of None \<Rightarrow> True | Some cm \<Rightarrow> choice cm \<noteq> Some False)"

definition isContinueAllowed :: "Activity \<Rightarrow> bool" where
  "isContinueAllowed a = (case controlModeOf a of None \<Rightarrow> True | Some cm \<Rightarrow> flow cm \<noteq> Some False)"

definition isPreviousAllowed :: "Activity \<Rightarrow> bool" where
  "isPreviousAllowed a =
     (case controlModeOf a of None \<Rightarrow> True | Some cm \<Rightarrow> forwardOnly cm \<noteq> Some True)"

fun findIndex :: "('a \<Rightarrow> bool) \<Rightarrow> 'a list \<Rightarrow> nat option" where
  "findIndex P [] = None"
| "findIndex P (x # xs) = (if P x then Some 0 else map_option Suc (findIndex P xs))"

definition getFirstChild :: "path \<Rightarrow> Activity \<Rightarrow> path option" where
  "getFirstChild p a = (if length (children a) = 0 then None else Some (p @ [0]))"

text \<open>
  The index searched for is that of the session's current activity among its own
  siblings; the \<open>activity\<close> argument of the source is not read.
\<close>

definition currentSiblingIndex :: "engine \<Rightarrow> (path \<times> nat \<times> nat) option" where
  "currentSiblingIndex e =
     (case currentActivity (session e) of
        None \<Rightarrow> None
      | Some cur \<Rightarrow>
          (case parent cur of
             None \<Rightarrow> None
           | Some par \<Rightarrow>
               (case (activityAt e par, activityAt e cur) of
                  (Some pa, Some ca) \<Rightarrow>
                    (case findIndex (\<lambda>child. activity_identifier child = activity_identifier ca)
                            (children pa) of
                       None \<Rightarrow> None
                     | Some i \<Rightarrow> Some (par, i, length (children pa)))
                | _ \<Rightarrow> None)))"

definition getNextChild :: "engine \<Rightarrow> path \<Rightarrow> path option" where
  "getNextChild e activity =
     (case currentSiblingIndex e of
        None \<Rightarrow> None
      | Some (par, currentIndex, n) \<Rightarrow>
          if currentIndex = n - 1 then None else Some (par @ [currentIndex + 1]))"

definition getPreviousChild :: "engine \<Rightarrow> path \<Rightarrow> path option" where
  "getPreviousChild e activity =
     (case currentSiblingIndex e of
        None \<Rightarrow> None
      | Some (par, currentIndex, n) \<Rightarrow>
          if currentIndex \<le> 0 then None else Some (par @ [currentIndex - 1]))"

subsection \<open>Flow Subprocess [SB.2.3]\<close>

text \<open>
  The first argument bounds the depth of the recursion (the call stack); \<open>RangeError\<close>
  is the answer when it is used up.
\<close>

fun flowSubprocess ::
  "nat \<Rightarrow> jsenv \<Rightarrow> engine \<Rightarrow> path \<Rightarrow> bool \<Rightarrow> bool \<Rightarrow> path option outcome" where
  "flowSubprocess 0 env e p entry reverse = RangeError"
| "flowSubprocess (Suc n) env e p entry reverse =
     (case activityAt e p of
        None \<Rightarrow> Returns None
      | Some a \<Rightarrow>
          if isLeaf a \<and> entry \<and> isActivityDeliverable env e p then Returns (Some p)
          else
            (let targetChild =
                   (if \<not> isLeaf a then
                      (if entry then getFirstChild p a
                       else if reverse then getPreviousChild e p else getNextChild e p)
                    else None)
             in case targetChild of
                  Some c \<Rightarrow> flowSubprocess n env e c True reverse
                | None \<Rightarrow>
                    (case parent p of
                       Some par \<Rightarrow> flowSubprocess n env e par False reverse
                     | None \<Rightarrow> Returns None)))"

subsection \<open>Rule actions\<close>

definition resetActivityState :: "path \<Rightarrow> engine \<Rightarrow> engine" where
  "resetActivityState p e = updState p (\<lambda>_. initializeActivityState) e"

fun resetActivityStateRecursive :: "Activity \<Rightarrow> path \<Rightarrow> engine \<Rightarrow> engine"
  and resetChildrenStates :: "Activity list \<Rightarrow> path \<Rightarrow> nat \<Rightarrow> engine \<Rightarrow> engine"
where
  "resetActivityStateRecursive (Activity ident it cs lf rt d sd) p e =
     resetChildrenStates cs p 0 (resetActivityState p e)"
| "resetChildrenStates [] p i e = e"
| "resetChildrenStates (c # cs) p i e =
     resetChildrenStates cs p (Suc i) (resetActivityStateRecursive c (p @ [i]) e)"

definition resetAllActivityStates :: "engine \<Rightarrow> engine" where
  "resetAllActivityStates e = resetActivityStateRecursive (activityTree (session e)) [] e"

definition executeRuleAction :: "string \<Rightarrow> path \<Rightarrow> engine \<Rightarrow> engine" where
  "executeRuleAction act p e =
     (if act = ''skip'' then
        updState p (\<lambda>s. s\<lparr>activityProgressStatus := True, activityCompletionStatus := True\<rparr>) e
      else if act = ''disabled'' then e
      else if act = ''hiddenFromChoice'' then e
      else if act = ''stopForwardTraversal'' then e
      else if act = ''exitParent'' then e
      else if act = ''exitAll'' then e\<lparr>endSession := True\<rparr>
      else if act = ''retry'' then resetActivityState p e
      else if act = ''retryAll'' then resetAllActivityStates e
      else e)"

datatype event = Entry | Exit

text \<open>\<open>rules || []\<close>\<close>

definition orEmpty :: "'a list option \<Rightarrow> 'a list" where
  "orEmpty xs = (case xs of None \<Rightarrow> [] | Some l \<Rightarrow> l)"

definition sequencingRulesCheckProcess :: "jsenv \<Rightarrow> path \<Rightarrow> event \<Rightarrow> engine \<Rightarrow> engine" where
  "sequencingRulesCheckProcess env p ev e =
     (case sequencingDefinitionAt e p of
        None \<Rightarrow> e
      | Some sq \<Rightarrow>
          (case sequencingRules sq of
             None \<Rightarrow> e
           | Some rs \<Rightarrow>
               (let rulesToCheck =
                      (case ev of
                         Entry \<Rightarrow> orEmpty (preConditionRule rs)
                       | Exit \<Rightarrow> orEmpty (exitConditionRule rs) @ orEmpty (postConditionRule rs))
                in foldl (\<lambda>e1 rule.
                            if evaluateSequencingRule env e1 rule p
                            then executeRuleAction (action rule) p e1 else e1)
                     e rulesToCheck)))"

subsection \<open>Rollup [RB.1.5]\<close>

definition executeRollupAction :: "string \<Rightarrow> path \<Rightarrow> engine \<Rightarrow> engine" where
  "executeRollupAction act p e =
     (if act = ''satisfied'' then setObjectiveSatisfiedStatus p True None e
      else if act = ''notSatisfied'' then setObjectiveSatisfiedStatus p False None e
      else if act = ''completed'' then
        updState p (\<lambda>s. s\<lparr>activityProgressStatus := True, activityCompletionStatus := True\<rparr>) e
      else if act = ''incomplete'' then
        updState p (\<lambda>s. s\<lparr>activityProgressStatus := True, activityCompletionStatus := False\<rparr>) e
      else e)"

definition applyRollupRule :: "jsenv \<Rightarrow> SCORMRollupRule \<Rightarrow> path \<Rightarrow> Activity \<Rightarrow> engine \<Rightarrow> engine" where
  "applyRollupRule env rule p a e =
     (let childResults =
            concat (map (\<lambda>child. map (\<lambda>c. evaluateRuleCondition env e c child) (conditions rule))
                        (childPaths p a));
          ruleResult =
            (if rollup_conditionCombination rule = ''all'' then list_all (\<lambda>r. r) childResults
             else list_ex (\<lambda>r. r) childResults)
      in if ruleResult then executeRollupAction (rollup_action rule) p e else e)"

definition applyDefaultRollup :: "path \<Rightarrow> Activity \<Rightarrow> engine \<Rightarrow> engine" where
  "applyDefaultRollup p a e =
     (let allChildrenComplete =
            list_all (\<lambda>child. activityProgressStatus (stateOf e child) \<and>
                               activityCompletionStatus (stateOf e child)) (childPaths p a);
          e1 = (if allChildrenComplete then
                  updState p (\<lambda>s. s\<lparr>activityProgressStatus := True,
                                      activityCompletionStatus := True\<rparr>) e
                else e);
          allChildrenSatisfied =
            list_all (\<lambda>child. getObjectiveSatisfiedStatus e1 child None) (childPaths p a)
      in if allChildrenSatisfied then setObjectiveSatisfiedStatus p True None e1 else e1)"

text \<open>\<open>sequencing?.rollupRules?.rollupRule\<close>\<close>

definition rollupRulesOf :: "Activity \<Rightarrow> SCORMRollupRule list option" where
  "rollupRulesOf a =
     (case sequencingDefinition a of
        None \<Rightarrow> None
      | Some sq \<Rightarrow> (case rollupRules sq of None \<Rightarrow> None | Some rr \<Rightarrow> rollupRule rr))"

definition rollupActivityState :: "jsenv \<Rightarrow> path \<Rightarrow> engine \<Rightarrow> engine" where
  "rollupActivityState env p e =
     (case activityAt e p of
        None \<Rightarrow> e
      | Some a \<Rightarrow>
          if isLeaf a then e
          else
            (case rollupRulesOf a of
               Some rules \<Rightarrow> foldl (\<lambda>e1 rule. applyRollupRule env rule p a e1) e rules
             | None \<Rightarrow> applyDefaultRollup p a e))"

function rollupProcess :: "jsenv \<Rightarrow> path \<Rightarrow> engine \<Rightarrow> engine" where
  "rollupProcess env p e =
     (let e1 = rollupActivityState env p e
      in case parent p of None \<Rightarrow> e1 | Some par \<Rightarrow> rollupProcess env par e1)"
  by pat_completeness auto
termination
  by (relation "measure (\<lambda>(env, p, e). length p)") (auto simp: parent_def split: if_splits)

declare rollupProcess.simps [simp del]

subsection \<open>Termination [TB.2.3] and delivery [DB.1.1]\<close>

definition terminationRequestProcess :: "jsenv \<Rightarrow> engine \<Rightarrow> engine" where
  "terminationRequestProcess env e =
     (case currentActivity (session e) of
        None \<Rightarrow> e
      | Some cur \<Rightarrow>
          (let e1 = updState cur (\<lambda>s. s\<lparr>activityIsActive := False\<rparr>) e;
               e2 = sequencingRulesCheckProcess env cur Exit e1
           in rollupProcess env cur e2))"

definition deliveryRequestProcess :: "jsenv \<Rightarrow> path \<Rightarrow> engine \<Rightarrow> path option \<times> engine" where
  "deliveryRequestProcess env p e =
     (if \<not> isActivityDeliverable env e p then (None, e)
      else
        (let e1 = e\<lparr>session := (session e)\<lparr>currentActivity := Some p\<rparr>\<rparr>;
             e2 = updState p (\<lambda>s. s\<lparr>activityIsActive := True\<rparr>) e1;
             e3 = sequencingRulesCheckProcess env p Entry e2
         in (Some p, e3)))"

subsection \<open>Sequencing request processes\<close>

definition startSequencingRequestProcess :: "nat \<Rightarrow> jsenv \<Rightarrow> engine \<Rightarrow> path option outcome" where
  "startSequencingRequestProcess fuel env e =
     (let rootActivity = activityTree (session e)
      in if \<not> isChoiceValid rootActivity then Returns None
         else flowSubprocess fuel env e [] True False)"

definition resumeAllSequencingRequestProcess :: "nat \<Rightarrow> jsenv \<Rightarrow> engine \<Rightarrow> path option outcome" where
  "resumeAllSequencingRequestProcess fuel env e =
     (case findSuspendedActivity (states (session e)) (activityTree (session e)) [] of
        Some suspended \<Rightarrow> Returns (Some suspended)
      | None \<Rightarrow> startSequencingRequestProcess fuel env e)"

definition continueSequencingRequestProcess :: "nat \<Rightarrow> jsenv \<Rightarrow> engine \<Rightarrow> path option outcome" where
  "continueSequencingRequestProcess fuel env e =
     (case currentActivity (session e) of
        None \<Rightarrow> Returns None
      | Some cur \<Rightarrow>
          (case activityAt e cur of
             None \<Rightarrow> Returns None
           | Some a \<Rightarrow>
               if \<not> isContinueAllowed a then Returns None
               else flowSubprocess fuel env e cur False False))"

definition previousSequencingRequestProcess :: "nat \<Rightarrow> jsenv \<Rightarrow> engine \<Rightarrow> path option outcome" where
  "previousSequencingRequestProcess fuel env e =
     (case currentActivity (session e) of
        None \<Rightarrow> Returns None
      | Some cur \<Rightarrow>
          (case activityAt e cur of
             None \<Rightarrow> Returns None
           | Some a \<Rightarrow>
               if \<not> isPreviousAllowed a then Returns None
               else flowSubprocess fuel env e cur False True))"

definition choiceSequencingRequestProcess ::
  "nat \<Rightarrow> jsenv \<Rightarrow> string \<Rightarrow> engine \<Rightarrow> path option outcome" where
  "choiceSequencingRequestProcess fuel env targetId e =
     (case findActivity e targetId of
        None \<Rightarrow> Returns None
      | Some target \<Rightarrow>
          (case activityAt e target of
             None \<Rightarrow> Returns None
           | Some a \<Rightarrow>
               if \<not> isChoiceValid a then Returns None
               else flowSubprocess fuel env e target True False))"

definition exitSequencingRequestProcess ::
  "nat \<Rightarrow> jsenv \<Rightarrow> engine \<Rightarrow> path option outcome \<times> engine" where
  "exitSequencingRequestProcess fuel env e =
     (case currentActivity (session e) of
        None \<Rightarrow> (Returns None, e)
      | Some cur \<Rightarrow>
          (case parent cur of
             None \<Rightarrow> (Returns None, e\<lparr>endSession := True\<rparr>)
           | Some par \<Rightarrow> (flowSubprocess fuel env e par False False, e)))"

record NavResult =
  valid :: bool
  exception :: "string option"

record SeqResult = NavResult +
  activity :: "path option"

text \<open>The end of \<open>sequencingRequestProcess\<close>: \<open>if (identifiedActivity) ... else ...\<close>.\<close>

definition identified :: "path option outcome \<times> engine \<Rightarrow> (SeqResult \<times> engine) outcome" where
  "identified r =
     (case r of
        (RangeError, e) \<Rightarrow> RangeError
      | (Returns (Some a), e) \<Rightarrow> Returns (\<lparr>valid = True, exception = None, activity = Some a\<rparr>, e)
      | (Returns None, e) \<Rightarrow>
          Returns (\<lparr>valid = False, exception = Some ''No activity identified'', activity = None\<rparr>,
                   e\<lparr>endSession := True\<rparr>))"

definition sequencingRequestProcess ::
  "nat \<Rightarrow> jsenv \<Rightarrow> string \<Rightarrow> string option \<Rightarrow> engine \<Rightarrow> (SeqResult \<times> engine) outcome" where
  "sequencingRequestProcess fuel env request targetId e =
     (if request = ''start'' then identified (startSequencingRequestProcess fuel env e, e)
      else if request = ''resumeAll'' then identified (resumeAllSequencingRequestProcess fuel env e, e)
      else if request = ''continue'' then identified (continueSequencingRequestProcess fuel env e, e)
      else if request = ''previous'' then identified (previousSequencingRequestProcess fuel env e, e)
      else if request = ''choice'' then
        (case targetId of
           None \<Rightarrow> identified (Returns None, e)
         | Some t \<Rightarrow>
             if t = [] then identified (Returns None, e)
             else identified (choiceSequencingRequestProcess fuel env t e, e))
      else if request = ''exit'' then identified (exitSequencingRequestProcess fuel env e)
      else if request = ''exitAll'' then
        Returns (\<lparr>valid = True, exception = None, activity = None\<rparr>, e\<lparr>endSession := True\<rparr>)
      else if request = ''abandon'' then identified (continueSequencingRequestProcess fuel env e, e)
      else if request = ''abandonAll'' then
        Returns (\<lparr>valid = True, exception = None, activity = None\<rparr>, e\<lparr>endSession := True\<rparr>)
      else identified (Returns None, e))"

subsection \<open>Navigation Request Process [NB.2.1]\<close>

definition validRequests :: "string list" where
  "validRequests = [''start'', ''resumeAll'', ''continue'', ''previous'', ''choice'', ''exit'',
                    ''exitAll'', ''abandon'', ''abandonAll'']"

definition invalid :: "string \<Rightarrow> NavResult" where
  "invalid msg = \<lparr>valid = False, exception = Some msg\<rparr>"

definition navigationRequestProcess :: "engine \<Rightarrow> string \<Rightarrow> string option \<Rightarrow> NavResult" where
  "navigationRequestProcess e request targetId =
     (if request \<notin> set validRequests then invalid ''Invalid navigation request''
      else if endSession e then invalid ''Sequencing session has ended''
      else if request = ''start'' \<or> request = ''resumeAll'' then
        (if currentActivity (session e) \<noteq> None then invalid ''Sequencing session already active''
         else \<lparr>valid = True, exception = None\<rparr>)
      else if request = ''continue'' \<or> request = ''previous'' \<or> request = ''exit'' \<or>
              request = ''abandon'' then
        (if currentActivity (session e) = None then invalid ''No current activity''
         else \<lparr>valid = True, exception = None\<rparr>)
      else if request = ''choice'' then
        (if \<not> str_truthy targetId then invalid ''Choice requires target activity''
         else
           (case (case targetId of None \<Rightarrow> None | Some t \<Rightarrow> findActivity e t) of
              None \<Rightarrow> invalid ''Target activity not found''
            | Some target \<Rightarrow>
                (case activityAt e target of
                   None \<Rightarrow> invalid ''Target activity not found''
                 | Some a \<Rightarrow>
                     if \<not> isChoiceValid a then invalid ''Choice not valid for target activity''
                     else \<lparr>valid = True, exception = None\<rparr>)))
      else \<lparr>valid = True, exception = None\<rparr>)"

subsection \<open>Overall Sequencing Process [OP.1] and the public API\<close>

definition overallSequencingProcess ::
  "nat \<Rightarrow> jsenv \<Rightarrow> string \<Rightarrow> string option \<Rightarrow> engine \<Rightarrow> path option outcome \<times> engine" where
  "overallSequencingProcess fuel env navigationRequest targetActivityId e0 =
     (let e = e0\<lparr>endSession := False\<rparr>;
          navigationValid = navigationRequestProcess e navigationRequest targetActivityId
      in if \<not> valid navigationValid then (Returns None, e)
         else
           (let e1 = (if currentActivity (session e) \<noteq> None
                      then terminationRequestProcess env e else e)
            in case sequencingRequestProcess fuel env navigationRequest targetActivityId e1 of
                 RangeError \<Rightarrow> (RangeError, e1)
               | Returns (sequencingResult, e2) \<Rightarrow>
                   (case activity sequencingResult of
                      Some act \<Rightarrow>
                        if valid sequencingResult then
                          (case deliveryRequestProcess env act e2 of
                             (deliveryRequest, e3) \<Rightarrow> (Returns deliveryRequest, e3))
                        else (Returns None, e2)
                    | None \<Rightarrow> (Returns None, e2))))"

text \<open>\<open>activity?.identifier || null\<close>\<close>

definition identifierOrNull :: "engine \<Rightarrow> path option \<Rightarrow> string option" where
  "identifierOrNull e r =
     (case r of
        None \<Rightarrow> None
      | Some p \<Rightarrow>
          (case activityAt e p of
             None \<Rightarrow> None
           | Some a \<Rightarrow> if activity_identifier a = [] then None else Some (activity_identifier a)))"

definition processNavigationRequest ::
  "nat \<Rightarrow> jsenv \<Rightarrow> string \<Rightarrow> string option \<Rightarrow> engine \<Rightarrow> string option outcome \<times> engine" where
  "processNavigationRequest fuel env request targetId e =
     (case overallSequencingProcess fuel env request targetId e of
        (RangeError, e1) \<Rightarrow> (RangeError, e1)
      | (Returns r, e1) \<Rightarrow> (Returns (identifierOrNull e1 r), e1))"

definition startSequence :: "nat \<Rightarrow> jsenv \<Rightarrow> engine \<Rightarrow> string option outcome \<times> engine" where
  "startSequence fuel env e =
     (case overallSequencingProcess fuel env ''start'' None e of
        (RangeError, e1) \<Rightarrow> (RangeError, e1)
      | (Returns r, e1) \<Rightarrow> (Returns (identifierOrNull e1 r), e1))"

definition getCurrentActivity :: "engine \<Rightarrow> string option" where
  "getCurrentActivity e =
     (case currentActivity (session e) of
        None \<Rightarrow> None
      | Some p \<Rightarrow> map_option activity_identifier (activityAt e p))"

definition getAvailableNavigationRequests :: "engine \<Rightarrow> string list" where
  "getAvailableNavigationRequests e =
     (case currentActivity (session e) of
        None \<Rightarrow> []
      | Some p \<Rightarrow>
          (case activityAt e p of
             None \<Rightarrow> []
           | Some a \<Rightarrow>
               (if isContinueAllowed a then [''continue''] else []) @
               (if isPreviousAllowed a then [''previous''] else []) @
               (if isChoiceValid a then [''choice''] else []) @
               [''exit'', ''exitAll'', ''abandon'', ''abandonAll'']))"

subsection \<open>Sequences of requests\<close>

text \<open>
  Every state-changing public operation (\<open>startSequence\<close>, \<open>processNavigationRequest\<close>,
  \<open>overallSequencingProcess\<close>) changes the engine as \<open>overallSequencingProcess\<close> does. A
  request carries the stack depth available to it, the clock of its moment, the token and
  the optional target.
\<close>

fun runRequests :: "engine \<Rightarrow> (nat \<times> jsenv \<times> string \<times> string option) list \<Rightarrow> engine" where
  "runRequests e [] = e"
| "runRequests e ((fuel, env, request, targetId) # cs) =
     runRequests (snd (overallSequencingProcess fuel env request targetId e)) cs"

subsection \<open>Properties of states\<close>

definition singleActive :: "engine \<Rightarrow> bool" where
  "singleActive e = (\<forall>p q. activityIsActive (states (session e) p) \<and>
     activityIsActive (states (session e) q) \<longrightarrow> p = q)"

definition active_inv :: "engine \<Rightarrow> bool" where
  "active_inv e =
     (\<forall>q. activityIsActive (states (session e) q) \<longrightarrow> currentActivity (session e) = Some q)"

definition paired :: "ActivityStateInformation \<Rightarrow> bool" where
  "paired s = ((activityCompletionStatus s \<longrightarrow> activityProgressStatus s) \<and>
     (\<forall>k ob. objectives s k = Some ob \<longrightarrow>
        objectiveSatisfiedStatus ob \<longrightarrow> objectiveProgressStatus ob))"

definition paired_inv :: "engine \<Rightarrow> bool" where
  "paired_inv e = ((\<forall>q. paired (states (session e) q)) \<and>
     (\<forall>k ob. globalObjectives (session e) k = Some ob \<longrightarrow>
        objectiveSatisfiedStatus ob \<longrightarrow> objectiveProgressStatus ob))"

text \<open>
  What the rule actions and the rollup may do to an engine: nothing but the activity
  states and the end flag change, no activity becomes active, no status loses its pairing.
\<close>

definition frame :: "engine \<Rightarrow> engine \<Rightarrow> bool" where
  "frame e e' = (manifest e' = manifest e \<and>
     activityTree (session e') = activityTree (session e) \<and>
     currentActivity (session e') = currentActivity (session e) \<and>
     sequencingSession (session e') = sequencingSession (session e) \<and>
     globalObjectives (session e') = globalObjectives (session e) \<and>
     (endSession e \<longrightarrow> endSession e') \<and>
     (\<forall>q. (activityIsActive (states (session e') q) \<longrightarrow> activityIsActive (states (session e) q)) \<and>
          (paired (states (session e) q) \<longrightarrow> paired (states (session e') q))))"


text \<open>The successful branch of \<open>deliveryRequestProcess\<close>, and steps 1 and 2 of [OP.1].\<close>

definition deliver :: "jsenv \<Rightarrow> path \<Rightarrow> engine \<Rightarrow> engine" where
  "deliver env p e = sequencingRulesCheckProcess env p Entry
     (updState p (\<lambda>s. s\<lparr>activityIsActive := True\<rparr>)
        (e\<lparr>session := (session e)\<lparr>currentActivity := Some p\<rparr>\<rparr>))"

definition terminated :: "jsenv \<Rightarrow> engine \<Rightarrow> engine" where
  "terminated env e0 =
     (if currentActivity (session e0) \<noteq> None
      then terminationRequestProcess env (e0\<lparr>endSession := False\<rparr>)
      else e0\<lparr>endSession := False\<rparr>)"


definition isComplete :: "engine \<Rightarrow> path \<Rightarrow> bool" where
  "isComplete e p =
     (activityProgressStatus (stateOf e p) \<and> activityCompletionStatus (stateOf e p))"



text \<open>The control-mode flags of an activity (\<open>sequencing?.controlMode?.choice\<close> and so on).\<close>

definition choiceFlag :: "Activity \<Rightarrow> bool option" where
  "choiceFlag a = (case controlModeOf a of None \<Rightarrow> None | Some cm \<Rightarrow> choice cm)"

definition flowFlag :: "Activity \<Rightarrow> bool option" where
  "flowFlag a = (case controlModeOf a of None \<Rightarrow> None | Some cm \<Rightarrow> flow cm)"

definition forwardOnlyFlag :: "Activity \<Rightarrow> bool option" where
  "forwardOnlyFlag a = (case controlModeOf a of None \<Rightarrow> None | Some cm \<Rightarrow> forwardOnly cm)"


subsection \<open>Example manifests\<close>

definition env0 :: jsenv where
  "env0 = \<lparr> now = 0, parseDate = (\<lambda>_. None) \<rparr>"

definition leafItem :: "string \<Rightarrow> string \<Rightarrow> SCORMItem" where
  "leafItem i r = SCORMItem i (Some r) None None None"

definition cond :: "string \<Rightarrow> string option \<Rightarrow> SCORMRuleCondition" where
  "cond c op = \<lparr> condition = c, operator = op, measureThreshold = None,
                  referenceObjective = None \<rparr>"

definition preRules :: "SCORMRule list \<Rightarrow> SCORMSequencing" where
  "preRules rs = \<lparr> controlMode = None,
     sequencingRules = Some \<lparr> preConditionRule = Some rs, exitConditionRule = Some [],
                              postConditionRule = Some [] \<rparr>,
     limitConditions = None, rollupRules = None \<rparr>"

definition modes :: "bool option \<Rightarrow> bool option \<Rightarrow> bool option \<Rightarrow> SCORMSequencing" where
  "modes c f fo = \<lparr> controlMode = Some \<lparr> choice = c, flow = f, forwardOnly = fo \<rparr>,
     sequencingRules = None, limitConditions = None, rollupRules = None \<rparr>"

text \<open>root \<rightarrow> [A, B], no sequencing definitions.\<close>

definition manifestAB :: SCORMManifest where
  "manifestAB = \<lparr> organizations =
     [\<lparr> org_identifier = ''ORG'', items = [leafItem ''A'' ''r1'', leafItem ''B'' ''r2''] \<rparr>] \<rparr>"

definition engineAB :: engine where
  "engineAB = projr (SCORMSequencingEngine manifestAB)"

text \<open>
  root \<rightarrow> [M \<rightarrow> [A, B]], where A carries the precondition rule
  \<open>{condition: "satisfied", operator: "not", action: "skip"}\<close>.
\<close>

definition manifestSkip :: SCORMManifest where
  "manifestSkip = \<lparr> organizations = [\<lparr> org_identifier = ''ORG'', items =
     [SCORMItem ''M'' None None (Some
        [SCORMItem ''A'' (Some ''r1'') None None
           (Some (preRules [\<lparr> conditionCombination = ''all'', action = ''skip'',
                              ruleConditions = [cond ''satisfied'' (Some ''not'')] \<rparr>])),
         leafItem ''B'' ''r2'']) None] \<rparr>] \<rparr>"

definition engineSkip :: engine where
  "engineSkip = projr (SCORMSequencingEngine manifestSkip)"

text \<open>root \<rightarrow> [A, B]: A forbids choice, B forbids flow and is forward-only.\<close>

definition manifestModes :: SCORMManifest where
  "manifestModes = \<lparr> organizations = [\<lparr> org_identifier = ''ORG'', items =
     [SCORMItem ''A'' (Some ''r1'') None None (Some (modes (Some False) None None)),
      SCORMItem ''B'' (Some ''r2'') None None (Some (modes None (Some False) (Some True)))] \<rparr>] \<rparr>"

definition engineModes :: engine where
  "engineModes = projr (SCORMSequencingEngine manifestModes)"

text \<open>
  root \<rightarrow> [P \<rightarrow> [M \<rightarrow> [A1, A2]]]: P has no sequencing definition (default rollup); M has
  explicit rollup rules (completed when no child is completed, incomplete and satisfied
  when some child is completed); A2 is marked complete when it is entered.
\<close>

definition rollupM :: SCORMSequencing where
  "rollupM = \<lparr> controlMode = None, sequencingRules = None, limitConditions = None,
     rollupRules = Some \<lparr> rollupRule = Some
       [\<lparr> rollup_action = ''completed'', rollup_conditionCombination = ''all'',
          conditions = [cond ''completed'' (Some ''not'')] \<rparr>,
        \<lparr> rollup_action = ''incomplete'', rollup_conditionCombination = ''any'',
          conditions = [cond ''completed'' None] \<rparr>,
        \<lparr> rollup_action = ''satisfied'', rollup_conditionCombination = ''any'',
          conditions = [cond ''completed'' None] \<rparr>] \<rparr> \<rparr>"

definition manifestPM :: SCORMManifest where
  "manifestPM = \<lparr> organizations = [\<lparr> org_identifier = ''ORG'', items =
     [SCORMItem ''P'' None None (Some
        [SCORMItem ''M'' None None (Some
           [leafItem ''A1'' ''r1'',
            SCORMItem ''A2'' (Some ''r2'') None None
              (Some (preRules [\<lparr> conditionCombination = ''all'', action = ''skip'',
                                 ruleConditions = [cond ''completed'' (Some ''not'')] \<rparr>]))])
          (Some rollupM)]) None] \<rparr>] \<rparr>"

definition enginePM :: engine where
  "enginePM = projr (SCORMSequencingEngine manifestPM)"

text \<open>root \<rightarrow> [M \<rightarrow> [A]], where A is marked complete when it is entered; M has default rollup.\<close>

definition manifestOne :: SCORMManifest where
  "manifestOne = \<lparr> organizations = [\<lparr> org_identifier = ''ORG'', items =
     [SCORMItem ''M'' None None (Some
        [SCORMItem ''A'' (Some ''r1'') None None
           (Some (preRules [\<lparr> conditionCombination = ''all'', action = ''skip'',
                              ruleConditions = [cond ''satisfied'' (Some ''not'')] \<rparr>]))]) None] \<rparr>] \<rparr>"

definition engineOne :: engine where
  "engineOne = projr (SCORMSequencingEngine manifestOne)"

text \<open>root \<rightarrow> [M \<rightarrow> [A, B]], no sequencing definitions.\<close>

definition manifestNested :: SCORMManifest where
  "manifestNested = \<lparr> organizations = [\<lparr> org_identifier = ''ORG'', items =
     [SCORMItem ''M'' None None (Some [leafItem ''A'' ''r1'', leafItem ''B'' ''r2'']) None] \<rparr>] \<rparr>"

definition engineNested :: engine where
  "engineNested = projr (SCORMSequencingEngine manifestNested)"

text \<open>root \<rightarrow> [M \<rightarrow> [A, B]], where B is bound to no resource.\<close>

definition manifestLoop :: SCORMManifest where
  "manifestLoop = \<lparr> organizations = [\<lparr> org_identifier = ''ORG'', items =
     [SCORMItem ''M'' None None
        (Some [leafItem ''A'' ''r1'', SCORMItem ''B'' None None None None]) None] \<rparr>] \<rparr>"

definition engineLoop :: engine where
  "engineLoop = projr (SCORMSequencingEngine manifestLoop)"

text \<open>root \<rightarrow> [M \<rightarrow> [X, B]], where X is bound to no resource.\<close>

definition manifestFirst :: SCORMManifest where
  "manifestFirst = \<lparr> organizations = [\<lparr> org_identifier = ''ORG'', items =
     [SCORMItem ''M'' None None
        (Some [SCORMItem ''X'' None None None None, leafItem ''B'' ''r2'']) None] \<rparr>] \<rparr>"

definition engineFirst :: engine where
  "engineFirst = projr (SCORMSequencingEngine manifestFirst)"

text \<open>Requests for the examples: stack depth 10, clock \<open>env0\<close>.\<close>

definition choiceOf :: "string \<Rightarrow> nat \<times> jsenv \<times> string \<times> string option" where
  "choiceOf t = (10, env0, ''choice'', Some t)"

definition req :: "string \<Rightarrow> nat \<times> jsenv \<times> string \<times> string option" where
  "req r = (10, env0, r, None)"

text \<open>The states the examples below look at.\<close>

definition statePM :: engine where
  "statePM = runRequests enginePM [choiceOf ''A1'', choiceOf ''A2'', req ''exit'']"


definition stateModes :: engine where
  "stateModes = runRequests engineModes [choiceOf ''B'']"

definition stateLoop :: engine where
  "stateLoop = terminationRequestProcess env0 ((runRequests engineLoop [choiceOf ''A''])\<lparr>endSession := False\<rparr>)"

definition stateA :: engine where
  "stateA = runRequests engineAB [choiceOf ''A'']"

section \<open>Lemmas\<close>

subsection \<open>What rules and rollup leave alone\<close>

lemma frame_active:
  "frame e e' \<Longrightarrow> activityIsActive (states (session e') q) \<Longrightarrow> activityIsActive (states (session e) q)"
  by (simp add: frame_def)

lemma frame_paired: "frame e e' \<Longrightarrow> paired (states (session e) q) \<Longrightarrow> paired (states (session e') q)"
  by (simp add: frame_def)

lemma frame_current: "frame e e' \<Longrightarrow> currentActivity (session e') = currentActivity (session e)"
  by (simp add: frame_def)

lemma frame_tree: "frame e e' \<Longrightarrow> activityTree (session e') = activityTree (session e)"
  by (simp add: frame_def)

lemma frame_global: "frame e e' \<Longrightarrow> globalObjectives (session e') = globalObjectives (session e)"
  by (simp add: frame_def)

lemma frame_ended: "frame e e' \<Longrightarrow> endSession e \<Longrightarrow> endSession e'"
  by (simp add: frame_def)

lemma frame_refl: "frame e e"
  by (simp add: frame_def)

lemma frame_trans: "frame e1 e2 \<Longrightarrow> frame e2 e3 \<Longrightarrow> frame e1 e3"
  by (simp add: frame_def)

lemma frame_foldl:
  assumes "\<And>e x. frame e (f e x)"
  shows "frame e (foldl f e xs)"
proof (induction xs arbitrary: e)
  case Nil show ?case by (simp add: frame_refl)
next
  case (Cons x xs)
  have "frame e (f e x)" by (rule assms)
  moreover have "frame (f e x) (foldl f (f e x) xs)" by (rule Cons.IH)
  ultimately show ?case by (simp add: frame_trans[of e "f e x"])
qed

lemma frame_updState:
  assumes "\<And>s. activityIsActive (f s) \<longrightarrow> activityIsActive s"
    and "\<And>s. paired s \<longrightarrow> paired (f s)"
  shows "frame e (updState p f e)"
  using assms by (simp add: frame_def updState_def)

lemma frame_endSession: "frame e (e\<lparr>endSession := True\<rparr>)"
  by (simp add: frame_def)

lemma paired_init: "paired initializeActivityState"
  by (simp add: paired_def initializeActivityState_def)

lemma frame_resetActivityState: "frame e (resetActivityState p e)"
  unfolding resetActivityState_def
  by (rule frame_updState) (simp_all add: paired_init, simp add: initializeActivityState_def)

lemma frame_resetRecursive:
  "frame e (resetActivityStateRecursive a p e)"
  "frame e (resetChildrenStates cs p i e)"
proof (induction a p e and cs p i e rule: resetActivityStateRecursive_resetChildrenStates.induct)
  case (1 ident it cs lf rt d sd p e)
  show ?case using frame_trans[OF frame_resetActivityState "1.IH"] by simp
next
  case (2 p i e)
  show ?case by (simp add: frame_refl)
next
  case (3 c cs p i e)
  show ?case using frame_trans[OF "3.IH"(1) "3.IH"(2)] by simp
qed

lemma frame_setCompletion:
  "frame e (updState p (\<lambda>s. s\<lparr>activityProgressStatus := True, activityCompletionStatus := b\<rparr>) e)"
  by (rule frame_updState) (simp_all add: paired_def)

lemma frame_executeRuleAction: "frame e (executeRuleAction act p e)"
  by (simp add: executeRuleAction_def resetAllActivityStates_def frame_setCompletion frame_refl
        frame_endSession frame_resetActivityState frame_resetRecursive)

lemma frame_sequencingRulesCheckProcess: "frame e (sequencingRulesCheckProcess env p ev e)"
  unfolding sequencingRulesCheckProcess_def Let_def
  by (simp split: option.splits add: frame_refl frame_foldl frame_executeRuleAction)

lemma frame_setObjectiveSatisfiedStatus: "frame e (setObjectiveSatisfiedStatus p b oid e)"
  unfolding setObjectiveSatisfiedStatus_def getOrCreateObjective_def Let_def
  by (auto split: option.splits prod.splits intro!: frame_updState frame_trans[OF frame_updState frame_updState] simp: paired_def newObjective_def)

lemma frame_executeRollupAction: "frame e (executeRollupAction act p e)"
  by (simp add: executeRollupAction_def frame_setCompletion frame_refl
        frame_setObjectiveSatisfiedStatus)

lemma frame_applyRollupRule: "frame e (applyRollupRule env rule p a e)"
  unfolding applyRollupRule_def Let_def
  by (simp add: frame_refl frame_executeRollupAction)

lemma frame_applyDefaultRollup: "frame e (applyDefaultRollup p a e)"
  unfolding applyDefaultRollup_def Let_def
  by (simp add: frame_refl frame_setObjectiveSatisfiedStatus frame_setCompletion
      frame_trans[OF frame_setCompletion frame_setObjectiveSatisfiedStatus])

lemma frame_rollupActivityState: "frame e (rollupActivityState env p e)"
  unfolding rollupActivityState_def
  by (simp split: option.splits add: frame_refl frame_foldl frame_applyRollupRule frame_applyDefaultRollup)

lemma frame_rollupProcess: "frame e (rollupProcess env p e)"
proof (induction env p e rule: rollupProcess.induct)
  case (1 env p e)
  show ?case
  proof (cases "parent p")
    case None
    then show ?thesis by (subst rollupProcess.simps) (simp add: frame_rollupActivityState)
  next
    case (Some par)
    have "frame (rollupActivityState env p e) (rollupProcess env par (rollupActivityState env p e))"
      using "1.IH"[OF refl Some] .
    then show ?thesis using Some frame_trans[OF frame_rollupActivityState]
      by (subst rollupProcess.simps) simp
  qed
qed

lemma frame_deactivate: "frame e (updState p (\<lambda>s. s\<lparr>activityIsActive := False\<rparr>) e)"
  by (rule frame_updState) (simp_all add: paired_def)

lemma frame_terminationRequestProcess: "frame e (terminationRequestProcess env e)"
proof (cases "currentActivity (session e)")
  case None
  then show ?thesis by (simp add: terminationRequestProcess_def frame_refl)
next
  case (Some cur)
  show ?thesis
    using frame_trans[OF frame_deactivate frame_trans[OF frame_sequencingRulesCheckProcess frame_rollupProcess]]
    by (simp add: terminationRequestProcess_def Some Let_def)
qed

subsection \<open>The shape of a request\<close>

lemma identified_session:
  "identified (r, e) = Returns (res, e2) \<Longrightarrow> session e2 = session e \<and> manifest e2 = manifest e"
  by (auto simp: identified_def split: outcome.splits option.splits)

lemma identified_activity:
  "identified (r, e) = Returns (res, e2) \<Longrightarrow> activity res = Some p \<Longrightarrow> e2 = e"
  by (auto simp: identified_def split: outcome.splits option.splits)

lemma exit_session:
  "exitSequencingRequestProcess fuel env e = (r, e1) \<Longrightarrow> session e1 = session e \<and> manifest e1 = manifest e"
  by (auto simp: exitSequencingRequestProcess_def split: option.splits)

lemma identified_exit_session:
  assumes "identified (exitSequencingRequestProcess fuel env e) = Returns (res, e2)"
  shows "session e2 = session e \<and> manifest e2 = manifest e"
proof -
  obtain r1 e1 where x: "exitSequencingRequestProcess fuel env e = (r1, e1)"
    by (cases "exitSequencingRequestProcess fuel env e")
  from assms x identified_session[of r1 e1 res e2] exit_session[OF x] show ?thesis by simp
qed

lemma sequencingRequestProcess_session:
  assumes "sequencingRequestProcess fuel env r t e = Returns (res, e2)"
  shows "session e2 = session e \<and> manifest e2 = manifest e"
  using assms unfolding sequencingRequestProcess_def
  by (auto split: if_splits option.splits dest: identified_session identified_exit_session)

lemma termination_no_current:
  "currentActivity (session e) = None \<Longrightarrow> terminationRequestProcess env e = e"
  by (simp add: terminationRequestProcess_def)

lemma terminated_eq: "terminated env e0 = terminationRequestProcess env (e0\<lparr>endSession := False\<rparr>)"
  by (simp add: terminated_def termination_no_current)

lemma overall_shape:
  assumes "overallSequencingProcess fuel env r t e0 = (res, e')"
  shows "(res = Returns None \<and> e' = e0\<lparr>endSession := False\<rparr>) \<or>
     (session e' = session (terminated env e0) \<and> manifest e' = manifest (terminated env e0) \<and>
        (res = RangeError \<or> res = Returns None)) \<or>
     (\<exists>e2 p. session e2 = session (terminated env e0) \<and> manifest e2 = manifest (terminated env e0) \<and>
        isActivityDeliverable env e2 p \<and> res = Returns (Some p) \<and> e' = deliver env p e2)"
  using assms
  unfolding overallSequencingProcess_def Let_def deliveryRequestProcess_def deliver_def terminated_def
  by (auto split: if_splits outcome.splits prod.splits option.splits
      dest!: sequencingRequestProcess_session)

subsection \<open>Invariants of a request\<close>

lemma termination_inactive:
  assumes "active_inv e"
  shows "\<not> activityIsActive (states (session (terminationRequestProcess env e)) q)"
proof (cases "currentActivity (session e)")
  case None
  with assms show ?thesis by (simp add: termination_no_current active_inv_def)
next
  case (Some cur)
  let ?e1 = "updState cur (\<lambda>s. s\<lparr>activityIsActive := False\<rparr>) e"
  have a: "\<not> activityIsActive (states (session ?e1) q)"
    using assms Some by (auto simp: updState_def active_inv_def)
  have "frame ?e1 (terminationRequestProcess env e)"
    using frame_trans[OF frame_sequencingRulesCheckProcess frame_rollupProcess]
    by (simp add: terminationRequestProcess_def Some Let_def)
  with a show ?thesis unfolding frame_def by blast
qed

lemma frame_deliver:
  "frame (updState p (\<lambda>s. s\<lparr>activityIsActive := True\<rparr>)
            (e\<lparr>session := (session e)\<lparr>currentActivity := Some p\<rparr>\<rparr>)) (deliver env p e)"
  unfolding deliver_def by (rule frame_sequencingRulesCheckProcess)

lemma deliver_active_inv:
  assumes "\<And>q. \<not> activityIsActive (states (session e) q)"
  shows "active_inv (deliver env p e)"
proof -
  let ?e2 = "updState p (\<lambda>s. s\<lparr>activityIsActive := True\<rparr>)
            (e\<lparr>session := (session e)\<lparr>currentActivity := Some p\<rparr>\<rparr>)"
  have c: "currentActivity (session (deliver env p e)) = Some p"
    using frame_current[OF frame_deliver, of env p e] by (simp add: updState_def)
  have "q = p" if "activityIsActive (states (session (deliver env p e)) q)" for q
  proof -
    have "activityIsActive (states (session ?e2) q)" using frame_active[OF frame_deliver that] .
    with assms show ?thesis by (simp add: updState_def split: if_splits)
  qed
  with c show ?thesis by (auto simp: active_inv_def)
qed

lemma active_inv_endSession: "active_inv (e\<lparr>endSession := b\<rparr>) = active_inv e"
  by (simp add: active_inv_def)

lemma active_inv_session: "session e' = session e \<Longrightarrow> active_inv e' = active_inv e"
  by (simp add: active_inv_def)

lemma active_inv_frame: "frame e e' \<Longrightarrow> active_inv e \<Longrightarrow> active_inv e'"
  using frame_active[of e e'] frame_current[of e e'] by (auto simp: active_inv_def)

lemma overall_active_inv:
  assumes "active_inv e0"
  shows "active_inv (snd (overallSequencingProcess fuel env r t e0))"
proof -
  obtain res e' where o: "overallSequencingProcess fuel env r t e0 = (res, e')"
    by (cases "overallSequencingProcess fuel env r t e0")
  let ?e = "e0\<lparr>endSession := False\<rparr>"
  have i: "active_inv ?e" using assms by (simp add: active_inv_endSession)
  have t: "active_inv (terminated env e0)"
    unfolding terminated_eq using active_inv_frame[OF frame_terminationRequestProcess i] .
  have n: "\<not> activityIsActive (states (session (terminated env e0)) q)" for q
    unfolding terminated_eq using termination_inactive[OF i] .
  consider (a) "e' = ?e" | (b) "session e' = session (terminated env e0)"
    | (c) e2 p where "session e2 = session (terminated env e0)" "e' = deliver env p e2"
    using overall_shape[OF o] by blast
  then have "active_inv e'"
  proof cases
    case a with i show ?thesis by simp
  next
    case b with t show ?thesis using active_inv_session[OF b] by simp
  next
    case c
    have "active_inv (deliver env p e2)"
      by (rule deliver_active_inv) (simp add: c(1) n)
    with c show ?thesis by simp
  qed
  with o show ?thesis by simp
qed

lemma active_inv_initial: "SCORMSequencingEngine m = Inr e0 \<Longrightarrow> active_inv e0"
  by (auto simp: SCORMSequencingEngine_def active_inv_def initializeActivityState_def split: sum.splits)

lemma active_inv_run: "active_inv e \<Longrightarrow> active_inv (runRequests e cs)"
  by (induction e cs rule: runRequests.induct) (simp_all add: overall_active_inv)

lemma paired_inv_session: "session e' = session e \<Longrightarrow> paired_inv e' = paired_inv e"
  by (simp add: paired_inv_def)

lemma paired_inv_frame: "frame e e' \<Longrightarrow> paired_inv e \<Longrightarrow> paired_inv e'"
  using frame_paired[of e e'] frame_global[of e e'] by (auto simp: paired_inv_def)

lemma deliver_paired_inv:
  assumes "paired_inv e"
  shows "paired_inv (deliver env p e)"
proof -
  have "paired_inv (updState p (\<lambda>s. s\<lparr>activityIsActive := True\<rparr>)
            (e\<lparr>session := (session e)\<lparr>currentActivity := Some p\<rparr>\<rparr>))"
    using assms by (auto simp: paired_inv_def updState_def paired_def)
  from paired_inv_frame[OF frame_deliver this] show ?thesis .
qed

lemma overall_paired_inv:
  assumes "paired_inv e0"
  shows "paired_inv (snd (overallSequencingProcess fuel env r t e0))"
proof -
  obtain res e' where o: "overallSequencingProcess fuel env r t e0 = (res, e')"
    by (cases "overallSequencingProcess fuel env r t e0")
  let ?e = "e0\<lparr>endSession := False\<rparr>"
  have i: "paired_inv ?e" using assms by (simp add: paired_inv_def)
  have t: "paired_inv (terminated env e0)"
    unfolding terminated_eq using paired_inv_frame[OF frame_terminationRequestProcess i] .
  consider (a) "e' = ?e" | (b) "session e' = session (terminated env e0)"
    | (c) e2 p where "session e2 = session (terminated env e0)" "e' = deliver env p e2"
    using overall_shape[OF o] by blast
  then have "paired_inv e'"
  proof cases
    case a with i show ?thesis by simp
  next
    case b with t show ?thesis using paired_inv_session[OF b] by simp
  next
    case c
    have "paired_inv e2" using t paired_inv_session[OF c(1)] by simp
    then have "paired_inv (deliver env p e2)" by (rule deliver_paired_inv)
    with c show ?thesis by simp
  qed
  with o show ?thesis by simp
qed

lemma paired_inv_initial: "SCORMSequencingEngine m = Inr e0 \<Longrightarrow> paired_inv e0"
  by (auto simp: SCORMSequencingEngine_def paired_inv_def paired_init split: sum.splits)

lemma paired_inv_run: "paired_inv e \<Longrightarrow> paired_inv (runRequests e cs)"
  by (induction e cs rule: runRequests.induct) (simp_all add: overall_paired_inv)

subsection \<open>The tree built from a manifest\<close>





lemma deliver_tree: "activityTree (session (deliver env p e)) = activityTree (session e)"
  using frame_tree[OF frame_deliver, of env p e] by (simp add: updState_def)


lemma terminated_tree: "activityTree (session (terminated env e)) = activityTree (session e)"
  unfolding terminated_eq using frame_tree[OF frame_terminationRequestProcess, of env "e\<lparr>endSession := False\<rparr>"]
  by simp

lemma overall_tree:
  "activityTree (session (snd (overallSequencingProcess fuel env r t e0))) = activityTree (session e0)"
proof -
  obtain res e' where o: "overallSequencingProcess fuel env r t e0 = (res, e')"
    by (cases "overallSequencingProcess fuel env r t e0")
  consider (a) "e' = e0\<lparr>endSession := False\<rparr>" | (b) "session e' = session (terminated env e0)"
    | (c) e2 p where "session e2 = session (terminated env e0)" "e' = deliver env p e2"
    using overall_shape[OF o] by blast
  then have "activityTree (session e') = activityTree (session e0)"
  proof cases
    case a then show ?thesis by simp
  next
    case b then show ?thesis by (simp add: terminated_tree)
  next
    case c then show ?thesis by (simp add: deliver_tree terminated_tree)
  qed
  with o show ?thesis by simp
qed

lemma run_tree: "activityTree (session (runRequests e cs)) = activityTree (session e)"
  by (induction e cs rule: runRequests.induct) (simp_all add: overall_tree)


subsection \<open>Navigation validation\<close>





lemma terminate_current_inactive:
  assumes "currentActivity (session e) = Some p"
  shows "\<not> activityIsActive (states (session (terminationRequestProcess env e)) p)"
proof -
  let ?e1 = "updState p (\<lambda>s. s\<lparr>activityIsActive := False\<rparr>) e"
  have a: "\<not> activityIsActive (states (session ?e1) p)" by (simp add: updState_def)
  have "frame ?e1 (terminationRequestProcess env e)"
    using frame_trans[OF frame_sequencingRulesCheckProcess frame_rollupProcess]
    by (simp add: terminationRequestProcess_def assms Let_def)
  from frame_active[OF this] a show ?thesis by blast
qed

subsection \<open>Rollup\<close>











lemma child_not_parent: "p \<notin> set (childPaths p a)"
  by (auto simp: childPaths_def)












subsection \<open>The example engines\<close>

lemma engineAB_built: "SCORMSequencingEngine manifestAB = Inr engineAB"
  by (simp add: engineAB_def SCORMSequencingEngine_def buildActivityTree_def manifestAB_def)

lemma engineSkip_built: "SCORMSequencingEngine manifestSkip = Inr engineSkip"
  by (simp add: engineSkip_def SCORMSequencingEngine_def buildActivityTree_def manifestSkip_def)

lemma engineModes_built: "SCORMSequencingEngine manifestModes = Inr engineModes"
  by (simp add: engineModes_def SCORMSequencingEngine_def buildActivityTree_def manifestModes_def)

lemma enginePM_built: "SCORMSequencingEngine manifestPM = Inr enginePM"
  by (simp add: enginePM_def SCORMSequencingEngine_def buildActivityTree_def manifestPM_def)

lemma engineOne_built: "SCORMSequencingEngine manifestOne = Inr engineOne"
  by (simp add: engineOne_def SCORMSequencingEngine_def buildActivityTree_def manifestOne_def)

subsection \<open>The root activity\<close>

lemma root_is_leaf:
  assumes "SCORMSequencingEngine m = Inr e0"
  shows "isLeaf (activityTree (session e0)) \<and> item (activityTree (session e0)) = None \<and>
         sequencingDefinition (activityTree (session e0)) = None"
  using assms
  by (auto simp: SCORMSequencingEngine_def buildActivityTree_def createActivity_def set_children_def
      Let_def split: sum.splits list.splits)

lemma start_never_delivers:
  assumes "SCORMSequencingEngine m = Inr e0"
  shows "fst (overallSequencingProcess (Suc n) env ''start'' None (runRequests e0 cs)) = Returns None"
proof -
  let ?e = "runRequests e0 cs"
  let ?e1 = "?e\<lparr>endSession := False\<rparr>"
  have r: "isLeaf (activityTree (session ?e1))" "item (activityTree (session ?e1)) = None"
    "sequencingDefinition (activityTree (session ?e1)) = None"
    using root_is_leaf[OF assms] by (simp_all add: run_tree)
  have d: "\<not> isActivityDeliverable env ?e1 []"
    using r by (simp add: isActivityDeliverable_def activityAt_def)
  have f: "flowSubprocess (Suc n) env ?e1 [] True False = Returns None"
    using r d by (simp add: activityAt_def parent_def)
  have s: "startSequencingRequestProcess (Suc n) env ?e1 = Returns None"
    using f by (simp add: startSequencingRequestProcess_def)
  show ?thesis
  proof (cases "currentActivity (session ?e)")
    case None
    then show ?thesis using s
      by (simp add: overallSequencingProcess_def Let_def navigationRequestProcess_def
          validRequests_def sequencingRequestProcess_def identified_def)
  next
    case (Some c)
    then show ?thesis
      by (simp add: overallSequencingProcess_def Let_def navigationRequestProcess_def
          validRequests_def invalid_def)
  qed
qed

lemma ended_check_unreachable:
  "exception (navigationRequestProcess (e\<lparr>endSession := False\<rparr>) r t) \<noteq>
     Some ''Sequencing session has ended''"
  by (simp add: navigationRequestProcess_def invalid_def split: option.splits)

subsection \<open>Flow inside a cluster, and a flow that never returns\<close>

text \<open>
  Below a cluster other than the root the flow moves between siblings: in
  root \<rightarrow> [M \<rightarrow> [A, B]], entering M delivers A, \<open>continue\<close> delivers B, \<open>previous\<close> delivers A
  again, and \<open>continue\<close> from B ends the session.
\<close>

lemma nested_cluster_flow:
  "fst (processNavigationRequest 10 env0 ''choice'' (Some ''M'') engineNested) = Returns (Some ''A'') \<and>
   fst (processNavigationRequest 10 env0 ''continue'' None
          (runRequests engineNested [choiceOf ''M''])) = Returns (Some ''B'') \<and>
   fst (processNavigationRequest 10 env0 ''previous'' None
          (runRequests engineNested [choiceOf ''M'', req ''continue''])) = Returns (Some ''A'') \<and>
   fst (processNavigationRequest 10 env0 ''continue'' None
          (runRequests engineNested [choiceOf ''M'', req ''continue''])) = Returns None \<and>
   endSession (runRequests engineNested [choiceOf ''M'', req ''continue'', req ''continue''])"
  by code_simp

text \<open>
  A leaf that is entered and is not deliverable sends the flow back to its parent, which
  looks for the sibling after the session's current activity, not after that leaf: with
  no current activity, entering M finds nothing although B is deliverable.
\<close>

lemma undeliverable_first_child_ends_flow:
  "isActivityDeliverable env0 engineFirst [0, 1] \<and>
   fst (processNavigationRequest 10 env0 ''choice'' (Some ''M'') engineFirst) = Returns None \<and>
   endSession (runRequests engineFirst [choiceOf ''M''])"
  by code_simp

text \<open>
  When the next sibling of the current activity is not deliverable, \<open>flowSubprocess\<close>
  alternates between the cluster and that sibling: whatever the stack depth, \<open>continue\<close>
  ends in a RangeError.
\<close>

lemma flow_loops:
  "flowSubprocess n env0 stateLoop [0] False False = RangeError \<and>
   flowSubprocess n env0 stateLoop [0, 1] True False = RangeError"
proof (induction n)
  case 0
  show ?case by simp
next
  case (Suc n)
  have "activityAt stateLoop [0] \<noteq> None" by code_simp
  then obtain m where m: "activityAt stateLoop [0] = Some m" by auto
  have "activityAt stateLoop [0, 1] \<noteq> None" by code_simp
  then obtain b where b: "activityAt stateLoop [0, 1] = Some b" by auto
  have "\<not> isLeaf (the (activityAt stateLoop [0]))" by code_simp
  with m have lm: "\<not> isLeaf m" by simp
  have "isLeaf (the (activityAt stateLoop [0, 1]))" by code_simp
  with b have lb: "isLeaf b" by simp
  have nd: "\<not> isActivityDeliverable env0 stateLoop [0, 1]" by code_simp
  have nx: "getNextChild stateLoop [0] = Some [0, 1]" by code_simp
  have pa: "parent [0, 1] = Some [0]" by code_simp
  have "flowSubprocess (Suc n) env0 stateLoop [0] False False =
        flowSubprocess n env0 stateLoop [0, 1] True False"
    using m lm nx by simp
  moreover have "flowSubprocess (Suc n) env0 stateLoop [0, 1] True False =
        flowSubprocess n env0 stateLoop [0] False False"
    using b lb nd pa by simp
  ultimately show ?case using Suc.IH by simp
qed

lemma flow_exhausts_stack:
  "fst (processNavigationRequest n env0 ''continue'' None (runRequests engineLoop [choiceOf ''A''])) =
     RangeError"
proof -
  let ?s = "runRequests engineLoop [choiceOf ''A'']"
  have c0: "currentActivity (session (?s\<lparr>endSession := False\<rparr>)) \<noteq> None" by code_simp
  have v: "valid (navigationRequestProcess (?s\<lparr>endSession := False\<rparr>) ''continue'' None)"
    by code_simp
  have c: "currentActivity (session stateLoop) = Some [0, 0]" by code_simp
  have "activityAt stateLoop [0, 0] \<noteq> None" by code_simp
  then obtain a where a: "activityAt stateLoop [0, 0] = Some a" by auto
  have "isLeaf (the (activityAt stateLoop [0, 0]))" by code_simp
  with a have la: "isLeaf a" by simp
  have "isContinueAllowed (the (activityAt stateLoop [0, 0]))" by code_simp
  with a have ca: "isContinueAllowed a" by simp
  have pa: "parent [0, 0] = Some [0]" by code_simp
  have f: "flowSubprocess n env0 stateLoop [0, 0] False False = RangeError"
  proof (cases n)
    case 0 then show ?thesis by simp
  next
    case (Suc k)
    then show ?thesis using a la pa flow_loops[of k] by simp
  qed
  have "continueSequencingRequestProcess n env0 stateLoop = RangeError"
    using c a ca f by (simp add: continueSequencingRequestProcess_def)
  then have "sequencingRequestProcess n env0 ''continue'' None stateLoop = RangeError"
    by (simp add: sequencingRequestProcess_def identified_def)
  then have "overallSequencingProcess n env0 ''continue'' None ?s = (RangeError, stateLoop)"
    using v c0 by (simp add: overallSequencingProcess_def Let_def stateLoop_def del: runRequests.simps)
  then show ?thesis by (simp add: processNavigationRequest_def del: runRequests.simps)
qed

section \<open>The claims\<close>

text \<open>
  C1, as the code runs it. \<open>overallSequencingProcess\<close> clears \<open>endSession\<close> before the
  navigation request is validated, so the flag set by \<open>exitAll\<close> (or by a failed
  \<open>start\<close>) does not outlive the request: the next \<open>choice\<close> or \<open>continue\<close> is accepted
  and delivers an activity.
\<close>

theorem session_end_not_sticky:
  "fst (processNavigationRequest 10 env0 ''exitAll'' None stateA) = Returns None \<and>
   endSession (runRequests engineAB [choiceOf ''A'', req ''exitAll'']) \<and>
   fst (processNavigationRequest 10 env0 ''choice'' (Some ''B'')
          (runRequests engineAB [choiceOf ''A'', req ''exitAll''])) = Returns (Some ''B'') \<and>
   fst (processNavigationRequest 10 env0 ''continue'' None
          (runRequests engineSkip [choiceOf ''M'', req ''abandonAll''])) = Returns (Some ''B'') \<and>
   fst (startSequence 10 env0 engineAB) = Returns None \<and>
   endSession (runRequests engineAB [req ''start'']) \<and>
   fst (processNavigationRequest 10 env0 ''choice'' (Some ''A'')
          (runRequests engineAB [req ''start''])) = Returns (Some ''A'')"
  by code_simp

text \<open>
  C2, as the code runs it. A is the first child of M and carries the precondition rule
  \<open>{condition: "satisfied", operator: "not", action: "skip"}\<close>; its objective is not
  satisfied. Flowing into M delivers A itself (it becomes the current, active activity)
  and the entry rules then mark it complete; B is not reached.
\<close>

theorem skip_rule_delivers_activity:
  "\<not> getObjectiveSatisfiedStatus engineSkip [0, 0] None \<and>
   fst (processNavigationRequest 10 env0 ''choice'' (Some ''M'') engineSkip) = Returns (Some ''A'') \<and>
   getCurrentActivity (runRequests engineSkip [choiceOf ''M'']) = Some ''A'' \<and>
   activityIsActive (stateOf (runRequests engineSkip [choiceOf ''M'']) [0, 0]) \<and>
   isComplete (runRequests engineSkip [choiceOf ''M'']) [0, 0]"
  by code_simp

text \<open>
  C3. After any sequence of requests on a freshly constructed engine, at most one
  activity has \<open>activityIsActive = true\<close>.
\<close>

theorem single_active_invariant:
  assumes "SCORMSequencingEngine m = Inr e0"
  shows "singleActive (runRequests e0 cs)"
proof -
  have a: "active_inv (runRequests e0 cs)"
    using active_inv_run[OF active_inv_initial[OF assms]] .
  show ?thesis unfolding singleActive_def
  proof (intro allI impI)
    fix p q
    assume h: "activityIsActive (states (session (runRequests e0 cs)) p) \<and>
               activityIsActive (states (session (runRequests e0 cs)) q)"
    from a h have "currentActivity (session (runRequests e0 cs)) = Some p"
      and "currentActivity (session (runRequests e0 cs)) = Some q"
      by (simp_all add: active_inv_def)
    then show "p = q" by simp
  qed
qed

theorem single_active_invariant_witness:
  "SCORMSequencingEngine manifestAB = Inr engineAB \<and>
   activityIsActive (stateOf (runRequests engineAB [choiceOf ''A'', choiceOf ''B'']) [1]) \<and>
   singleActive (runRequests engineAB [choiceOf ''A'', choiceOf ''B''])"
proof -
  have "activityIsActive (stateOf (runRequests engineAB [choiceOf ''A'', choiceOf ''B'']) [1])"
    by code_simp
  with single_active_invariant[OF engineAB_built] engineAB_built show ?thesis by simp
qed

text \<open>
  C4, as the code runs it. In the tree root \<rightarrow> [A, B] without sequencing definitions,
  \<open>start\<close> returns null and ends the session with no current activity; \<open>continue\<close> from
  A and \<open>previous\<close> from B return null as well. The root is created with
  \<open>isLeaf = true\<close>, so the flow never descends from it.
\<close>

theorem two_level_tree_start_fails:
  "fst (startSequence 10 env0 engineAB) = Returns None \<and>
   endSession (snd (startSequence 10 env0 engineAB)) \<and>
   getCurrentActivity (snd (startSequence 10 env0 engineAB)) = None \<and>
   getCurrentActivity stateA = Some ''A'' \<and>
   fst (processNavigationRequest 10 env0 ''continue'' None stateA) = Returns None \<and>
   getCurrentActivity (runRequests engineAB [choiceOf ''B'']) = Some ''B'' \<and>
   fst (processNavigationRequest 10 env0 ''previous'' None
          (runRequests engineAB [choiceOf ''B''])) = Returns None"
  by code_simp








text \<open>
  C8. With a current activity, \<open>getAvailableNavigationRequests\<close> lists \<open>continue\<close> iff the
  control mode of the current activity does not set \<open>flow: false\<close>, \<open>previous\<close> iff it does
  not set \<open>forwardOnly\<close>, \<open>choice\<close> iff it does not set \<open>choice: false\<close>, and always
  \<open>exit\<close>, \<open>exitAll\<close>, \<open>abandon\<close> and \<open>abandonAll\<close>.
\<close>

theorem available_navigation_requests:
  assumes "currentActivity (session e) = Some p" and "activityAt e p = Some a"
  shows "(''continue'' \<in> set (getAvailableNavigationRequests e) \<longleftrightarrow> flowFlag a \<noteq> Some False) \<and>
         (''previous'' \<in> set (getAvailableNavigationRequests e) \<longleftrightarrow> forwardOnlyFlag a \<noteq> Some True) \<and>
         (''choice'' \<in> set (getAvailableNavigationRequests e) \<longleftrightarrow> choiceFlag a \<noteq> Some False) \<and>
         ''exit'' \<in> set (getAvailableNavigationRequests e) \<and>
         ''exitAll'' \<in> set (getAvailableNavigationRequests e) \<and>
         ''abandon'' \<in> set (getAvailableNavigationRequests e) \<and>
         ''abandonAll'' \<in> set (getAvailableNavigationRequests e)"
  using assms
  by (simp add: getAvailableNavigationRequests_def isContinueAllowed_def isPreviousAllowed_def
      isChoiceValid_def flowFlag_def forwardOnlyFlag_def choiceFlag_def split: option.splits)

theorem available_navigation_requests_witness:
  "\<exists>a. currentActivity (session stateModes) = Some [1] \<and> activityAt stateModes [1] = Some a \<and>
     flowFlag a = Some False \<and> forwardOnlyFlag a = Some True \<and> choiceFlag a = None \<and>
     ''continue'' \<notin> set (getAvailableNavigationRequests stateModes) \<and>
     ''previous'' \<notin> set (getAvailableNavigationRequests stateModes) \<and>
     ''choice'' \<in> set (getAvailableNavigationRequests stateModes) \<and>
     ''exit'' \<in> set (getAvailableNavigationRequests stateModes) \<and>
     ''exitAll'' \<in> set (getAvailableNavigationRequests stateModes) \<and>
     ''abandon'' \<in> set (getAvailableNavigationRequests stateModes) \<and>
     ''abandonAll'' \<in> set (getAvailableNavigationRequests stateModes)"
proof -
  let ?a = "the (activityAt stateModes [1])"
  have c: "currentActivity (session stateModes) = Some [1]" by code_simp
  have "activityAt stateModes [1] \<noteq> None" by code_simp
  then have a: "activityAt stateModes [1] = Some ?a" by simp
  have f: "flowFlag ?a = Some False" "forwardOnlyFlag ?a = Some True" "choiceFlag ?a = None"
    by code_simp+
  from available_navigation_requests[OF c a] c a f show ?thesis by auto
qed

text \<open>
  C9. An \<open>exitAll\<close> or \<open>abandonAll\<close> request issued while an activity is current returns
  null and keeps \<open>currentActivity\<close>: \<open>getCurrentActivity\<close> answers the same identifier as
  before, the activity is no longer active, \<open>endSession\<close> is set, and
  \<open>getAvailableNavigationRequests\<close> is not empty.
\<close>

theorem exitAll_keeps_current_activity:
  assumes "currentActivity (session e) = Some p" and "activityAt e p = Some a"
    and "request = ''exitAll'' \<or> request = ''abandonAll''"
  shows "fst (processNavigationRequest fuel env request targetId e) = Returns None \<and>
     (let e' = snd (processNavigationRequest fuel env request targetId e)
      in currentActivity (session e') = Some p \<and>
         getCurrentActivity e' = Some (activity_identifier a) \<and>
         getCurrentActivity e' = getCurrentActivity e \<and>
         \<not> activityIsActive (states (session e') p) \<and>
         endSession e' \<and>
         getAvailableNavigationRequests e' \<noteq> [])"
proof -
  let ?e = "e\<lparr>endSession := False\<rparr>"
  let ?t = "terminationRequestProcess env ?e"
  have v: "valid (navigationRequestProcess ?e request targetId)"
    using assms(3) by (auto simp: navigationRequestProcess_def validRequests_def)
  have s: "sequencingRequestProcess fuel env request targetId ?t =
      Returns (\<lparr>valid = True, exception = None, activity = None\<rparr>, ?t\<lparr>endSession := True\<rparr>)"
    using assms(3) by (auto simp: sequencingRequestProcess_def)
  have o: "overallSequencingProcess fuel env request targetId e = (Returns None, ?t\<lparr>endSession := True\<rparr>)"
    using v s assms(1) by (simp add: overallSequencingProcess_def Let_def)
  then have pn: "processNavigationRequest fuel env request targetId e = (Returns None, ?t\<lparr>endSession := True\<rparr>)"
    by (simp add: processNavigationRequest_def identifierOrNull_def)
  have f: "frame ?e ?t" by (rule frame_terminationRequestProcess)
  have c: "currentActivity (session ?t) = Some p" using frame_current[OF f] assms(1) by simp
  have tr: "activityAt (?t\<lparr>endSession := True\<rparr>) p = Some a"
    using frame_tree[OF f] assms(2) by (simp add: activityAt_def)
  have ia: "\<not> activityIsActive (states (session ?t) p)"
    by (rule terminate_current_inactive) (simp add: assms(1))
  have g: "getCurrentActivity (?t\<lparr>endSession := True\<rparr>) = Some (activity_identifier a)"
    using c tr by (simp add: getCurrentActivity_def)
  have g0: "getCurrentActivity e = Some (activity_identifier a)"
    using assms by (simp add: getCurrentActivity_def)
  have av: "getAvailableNavigationRequests (?t\<lparr>endSession := True\<rparr>) \<noteq> []"
    using c tr by (simp add: getAvailableNavigationRequests_def)
  show ?thesis using pn c g g0 ia av by (simp add: Let_def)
qed

theorem exitAll_keeps_current_activity_witness:
  "\<exists>a. currentActivity (session stateA) = Some [0] \<and> activityAt stateA [0] = Some a \<and>
     activityIsActive (stateOf stateA [0]) \<and>
     fst (processNavigationRequest 10 env0 ''exitAll'' None stateA) = Returns None \<and>
     getCurrentActivity (snd (processNavigationRequest 10 env0 ''exitAll'' None stateA)) = Some ''A'' \<and>
     \<not> activityIsActive
          (states (session (snd (processNavigationRequest 10 env0 ''exitAll'' None stateA))) [0]) \<and>
     endSession (snd (processNavigationRequest 10 env0 ''exitAll'' None stateA)) \<and>
     getAvailableNavigationRequests (snd (processNavigationRequest 10 env0 ''exitAll'' None stateA))
       \<noteq> []"
proof -
  let ?a = "the (activityAt stateA [0])"
  have c: "currentActivity (session stateA) = Some [0]" by code_simp
  have "activityAt stateA [0] \<noteq> None" by code_simp
  then have a: "activityAt stateA [0] = Some ?a" by simp
  have i: "activity_identifier ?a = ''A''" by code_simp
  have v: "activityIsActive (stateOf stateA [0])" by code_simp
  have "''exitAll'' = ''exitAll'' \<or> ''exitAll'' = ''abandonAll''" by simp
  from exitAll_keeps_current_activity[OF c a this, of 10 env0 None] c a i v
  show ?thesis by (auto simp: Let_def)
qed

text \<open>
  C10. After any sequence of requests on a freshly constructed engine, an activity whose
  \<open>activityCompletionStatus\<close> is true has \<open>activityProgressStatus\<close> true, and an objective
  (of an activity, or global) whose \<open>objectiveSatisfiedStatus\<close> is true has
  \<open>objectiveProgressStatus\<close> true.
\<close>

theorem status_pairing_invariant:
  assumes "SCORMSequencingEngine m = Inr e0"
  shows "(\<forall>p. activityCompletionStatus (states (session (runRequests e0 cs)) p) \<longrightarrow>
              activityProgressStatus (states (session (runRequests e0 cs)) p)) \<and>
         (\<forall>p k ob. objectives (states (session (runRequests e0 cs)) p) k = Some ob \<longrightarrow>
              objectiveSatisfiedStatus ob \<longrightarrow> objectiveProgressStatus ob) \<and>
         (\<forall>k ob. globalObjectives (session (runRequests e0 cs)) k = Some ob \<longrightarrow>
              objectiveSatisfiedStatus ob \<longrightarrow> objectiveProgressStatus ob)"
  using paired_inv_run[OF paired_inv_initial[OF assms], of cs]
  by (auto simp: paired_inv_def paired_def)

theorem status_pairing_invariant_witness:
  "SCORMSequencingEngine manifestPM = Inr enginePM \<and>
   activityCompletionStatus (states (session statePM) [0, 0, 1]) \<and>
   activityProgressStatus (states (session statePM) [0, 0, 1]) \<and>
   (\<exists>ob. objectives (states (session statePM) [0, 0]) ''_primary_'' = Some ob \<and>
      objectiveSatisfiedStatus ob \<and> objectiveProgressStatus ob)"
proof -
  have c: "activityCompletionStatus (states (session statePM) [0, 0, 1])" by code_simp
  have s: "getObjectiveSatisfiedStatus statePM [0, 0] None" by code_simp
  then obtain ob where ob: "objectives (states (session statePM) [0, 0]) ''_primary_'' = Some ob"
    "objectiveSatisfiedStatus ob"
    by (auto simp: getObjectiveSatisfiedStatus_def getObjective_def objectiveKey_def stateOf_def
        split: option.splits)
  note t = status_pairing_invariant[OF enginePM_built,
      of "[choiceOf ''A1'', choiceOf ''A2'', req ''exit'']", folded statePM_def]
  from t c have p: "activityProgressStatus (states (session statePM) [0, 0, 1])" by blast
  from t ob have "objectiveProgressStatus ob" by blast
  with c p ob enginePM_built show ?thesis by blast
qed

end
